theory Spec2Isabelle
  imports Complex_Main "HOL-Library.Multiset"
begin

section \<open>Intraday analyzer: the model of \<open>intraday_analysis.py\<close>\<close>

subsection \<open>Floating-point values\<close>

text \<open>
  The analysis computes on numpy/pandas \<open>float64\<close> values. A value is a finite number or
  one of the three special values; the arithmetic on the special values is IEEE 754's
  (division by zero gives an infinity or NaN and raises nothing, every comparison with
  NaN but \<open>!=\<close> is false). Finite results are exact reals: rounding, overflow and
  the sign of zero are not modelled.
\<close>

datatype fl = Fin real | PInf | NInf | NaN

fun isnan :: "fl \<Rightarrow> bool" where
  "isnan NaN = True"
| "isnan _ = False"

fun fneg :: "fl \<Rightarrow> fl" where
  "fneg (Fin a) = Fin (- a)"
| "fneg PInf = NInf"
| "fneg NInf = PInf"
| "fneg NaN = NaN"

fun fadd :: "fl \<Rightarrow> fl \<Rightarrow> fl" where
  "fadd (Fin a) (Fin b) = Fin (a + b)"
| "fadd NaN _ = NaN"
| "fadd _ NaN = NaN"
| "fadd PInf NInf = NaN"
| "fadd NInf PInf = NaN"
| "fadd PInf _ = PInf"
| "fadd _ PInf = PInf"
| "fadd NInf _ = NInf"
| "fadd _ NInf = NInf"

definition fsub :: "fl \<Rightarrow> fl \<Rightarrow> fl" where
  "fsub x y = fadd x (fneg y)"

fun fmul :: "fl \<Rightarrow> fl \<Rightarrow> fl" where
  "fmul (Fin a) (Fin b) = Fin (a * b)"
| "fmul NaN _ = NaN"
| "fmul _ NaN = NaN"
| "fmul PInf (Fin b) = (if b = 0 then NaN else if 0 < b then PInf else NInf)"
| "fmul NInf (Fin b) = (if b = 0 then NaN else if 0 < b then NInf else PInf)"
| "fmul (Fin a) PInf = (if a = 0 then NaN else if 0 < a then PInf else NInf)"
| "fmul (Fin a) NInf = (if a = 0 then NaN else if 0 < a then NInf else PInf)"
| "fmul PInf PInf = PInf"
| "fmul PInf NInf = NInf"
| "fmul NInf PInf = NInf"
| "fmul NInf NInf = PInf"

fun fdiv :: "fl \<Rightarrow> fl \<Rightarrow> fl" where
  "fdiv (Fin a) (Fin b) =
     (if b = 0 then (if a = 0 then NaN else if 0 < a then PInf else NInf)
      else Fin (a / b))"
| "fdiv NaN _ = NaN"
| "fdiv _ NaN = NaN"
| "fdiv (Fin a) PInf = Fin 0"
| "fdiv (Fin a) NInf = Fin 0"
| "fdiv PInf (Fin b) = (if 0 \<le> b then PInf else NInf)"
| "fdiv NInf (Fin b) = (if 0 \<le> b then NInf else PInf)"
| "fdiv PInf PInf = NaN"
| "fdiv PInf NInf = NaN"
| "fdiv NInf PInf = NaN"
| "fdiv NInf NInf = NaN"

fun fsqrt :: "fl \<Rightarrow> fl" where
  "fsqrt (Fin a) = (if 0 \<le> a then Fin (sqrt a) else NaN)"
| "fsqrt PInf = PInf"
| "fsqrt NInf = NaN"
| "fsqrt NaN = NaN"

text \<open>The comparisons \<open>>\<close>, \<open><\<close> and \<open>!=\<close>.\<close>

fun fgt :: "fl \<Rightarrow> fl \<Rightarrow> bool" where
  "fgt (Fin a) (Fin b) = (b < a)"
| "fgt NaN _ = False"
| "fgt _ NaN = False"
| "fgt PInf PInf = False"
| "fgt PInf _ = True"
| "fgt NInf _ = False"
| "fgt (Fin a) PInf = False"
| "fgt (Fin a) NInf = True"

definition flt :: "fl \<Rightarrow> fl \<Rightarrow> bool" where
  "flt x y = fgt y x"

fun fne :: "fl \<Rightarrow> fl \<Rightarrow> bool" where
  "fne NaN _ = True"
| "fne _ NaN = True"
| "fne x y = (x \<noteq> y)"

text \<open>\<open>add.reduce\<close>: the sum of a sequence, \<open>0.0\<close> for the empty one.\<close>

fun fsum :: "fl list \<Rightarrow> fl" where
  "fsum [] = Fin 0"
| "fsum (x # xs) = fadd x (fsum xs)"

subsection \<open>Configuration\<close>

definition MIN_DATA_POINTS :: nat where
  "MIN_DATA_POINTS = 60"

definition WORKERS :: nat where
  "WORKERS = 10"

definition TIMEOUT :: nat where
  "TIMEOUT = 10"

subsection \<open>pandas and numpy operations of the analysis\<close>

text \<open>
  A frame is the \<open>Close\<close> column of a price history, one finite close per bar, in time
  order; its length is \<open>len(data)\<close>, and \<open>pd.DataFrame()\<close> is the empty list.
\<close>

type_synonym frame = "real list"

type_synonym ticker = string

text \<open>
  \<open>Series.pct_change()\<close>: \<open>data / data.shift(1) - 1\<close>, the first entry NaN.
\<close>

definition pct_change :: "real list \<Rightarrow> fl list" where
  "pct_change ps =
     (case ps of
        [] \<Rightarrow> []
      | p # rest \<Rightarrow>
          NaN # map (\<lambda>(prev, cur). fsub (fdiv (Fin cur) (Fin prev)) (Fin 1)) (zip ps rest))"

definition dropna :: "fl list \<Rightarrow> fl list" where
  "dropna xs = filter (\<lambda>x. \<not> isnan x) xs"

text \<open>
  \<open>Series.std()\<close> (\<open>ddof = 1\<close>): NaN unless more than one value is counted, else
  the root of \<open>sum((avg - values) ** 2) / (count - 1)\<close>.
\<close>

definition pd_std :: "fl list \<Rightarrow> fl" where
  "pd_std xs =
     (if length xs \<le> 1 then NaN
      else
        let avg = fdiv (fsum xs) (Fin (real (length xs)));
            sqr = map (\<lambda>x. fmul (fsub avg x) (fsub avg x)) xs
        in fsqrt (fdiv (fsum sqr) (Fin (real (length xs - 1)))))"

text \<open>\<open>np.mean\<close> and \<open>np.std\<close> (\<open>ddof = 0\<close>) of a list.\<close>

definition np_mean :: "fl list \<Rightarrow> fl" where
  "np_mean xs = fdiv (fsum xs) (Fin (real (length xs)))"

definition np_std :: "fl list \<Rightarrow> fl" where
  "np_std xs =
     (let arrmean = fdiv (fsum xs) (Fin (real (length xs)));
          x = map (\<lambda>a. fsub a arrmean) xs;
          x2 = map (\<lambda>a. fmul a a) x
      in fsqrt (fdiv (fsum x2) (Fin (real (length xs)))))"

text \<open>\<open>.iloc[i]\<close> for the two positions the analysis reads, \<open>0\<close> and \<open>-1\<close>.\<close>

datatype exn =
  NetworkError | TimeoutError | MalformedResponse | IndexError | OverflowError

definition iloc_first :: "real list \<Rightarrow> exn + fl" where
  "iloc_first xs = (case xs of [] \<Rightarrow> Inl IndexError | x # _ \<Rightarrow> Inr (Fin x))"

definition iloc_last :: "real list \<Rightarrow> exn + fl" where
  "iloc_last xs = (case xs of [] \<Rightarrow> Inl IndexError | _ # _ \<Rightarrow> Inr (Fin (last xs)))"

subsection \<open>The market-data provider\<close>

text \<open>
  \<open>yf.Ticker(t).history(...)\<close> is an outside call. Its outcome for one task is given
  by a function from the ticker to an exception or a frame; the list of calls records
  every call made.
\<close>

type_synonym provider = "ticker \<Rightarrow> exn + frame"

definition history :: "provider \<Rightarrow> ticker \<Rightarrow> ticker list \<Rightarrow> (exn + frame) \<times> ticker list" where
  "history yf t calls = (yf t, calls @ [t])"

subsection \<open>MarketDataValidator\<close>

definition is_valid_ticker :: "provider \<Rightarrow> ticker \<Rightarrow> bool" where
  "is_valid_ticker yf t =
     (case fst (history yf t []) of
        Inr data \<Rightarrow> \<not> (data = [])
      | Inl e \<Rightarrow> False)"

subsection \<open>MarketDataProcessor: fetching\<close>

definition fetch_intraday_data :: "provider \<Rightarrow> ticker \<Rightarrow> ticker list \<Rightarrow> frame \<times> ticker list" where
  "fetch_intraday_data yf t calls =
     (case history yf t calls of
        (Inr data, calls') \<Rightarrow> (data, calls')
      | (Inl e, calls') \<Rightarrow> ([], calls'))"

subsection \<open>FinancialAnalytics: the analysis of one ticker\<close>

record analysis_result =
  Ticker :: ticker
  Current_Price :: fl
  Daily_Return :: fl
  Volatility :: fl
  Risk_Adj_Return :: fl
  Z_Score :: fl

text \<open>The local variables of \<open>_process_single_ticker\<close>, each as the source computes it.\<close>

definition returns :: "frame \<Rightarrow> fl list" where
  "returns data = dropna (pct_change data)"

definition volatility :: "frame \<Rightarrow> fl" where
  "volatility data = pd_std (returns data)"

definition daily_return_pct :: "fl \<Rightarrow> fl \<Rightarrow> fl" where
  "daily_return_pct current_price open_price =
     fmul (fdiv (fsub current_price open_price) open_price) (Fin 100)"

definition risk_adj_return :: "fl \<Rightarrow> fl \<Rightarrow> fl" where
  "risk_adj_return d vol = (if fne vol (Fin 0) then fdiv d vol else Fin 0)"

definition market_returns :: "frame \<Rightarrow> fl list" where
  "market_returns data = filter (\<lambda>r. \<not> isnan r) (returns data)"

definition market_mean :: "frame \<Rightarrow> fl" where
  "market_mean data = np_mean (market_returns data)"

definition market_std :: "frame \<Rightarrow> fl" where
  "market_std data = np_std (market_returns data)"

definition z_score :: "fl \<Rightarrow> frame \<Rightarrow> fl" where
  "z_score d data =
     (if fne (market_std data) (Fin 0)
      then fdiv (fsub d (market_mean data)) (market_std data)
      else Fin 0)"

text \<open>
  The \<open>try\<close> block: an exception raised in it (here, by \<open>.iloc\<close>) is caught and
  the ticker gets no result.
\<close>

definition analyze :: "ticker \<Rightarrow> frame \<Rightarrow> analysis_result option" where
  "analyze t data =
     (case (iloc_last data, iloc_first data) of
        (Inr current_price, Inr open_price) \<Rightarrow>
          (let d = daily_return_pct current_price open_price
           in Some \<lparr> Ticker = t,
                     Current_Price = current_price,
                     Daily_Return = d,
                     Volatility = volatility data,
                     Risk_Adj_Return = risk_adj_return d (volatility data),
                     Z_Score = z_score d data \<rparr>)
      | _ \<Rightarrow> None)"

definition process_single_ticker :: "provider \<Rightarrow> ticker \<Rightarrow> analysis_result option" where
  "process_single_ticker yf t =
     (let data = fst (fetch_intraday_data yf t [])
      in if length data < MIN_DATA_POINTS then None else analyze t data)"

subsection \<open>Thread pools\<close>

text \<open>
  A pool's futures are the submitted tasks in submission order, each with its ticker
  (\<open>future_to_ticker\<close>) and the outcome \<open>future.result()\<close> gives: a value or an
  exception. \<open>as_completed\<close> hands them out in an order the scheduler chooses: the
  schedule names, at each step, which of the futures still pending completes next.
  Every schedule gives a permutation of the futures, and every permutation comes
  from a schedule.
\<close>

function as_completed :: "nat list \<Rightarrow> 'a list \<Rightarrow> 'a list" where
  "as_completed sched [] = []"
| "as_completed [] (f # fs) = f # as_completed [] fs"
| "as_completed (k # sched) (f # fs) =
     (let j = k mod length (f # fs)
      in (f # fs) ! j # as_completed sched (take j (f # fs) @ drop (Suc j) (f # fs)))"
  by pat_completeness auto
termination
  by (relation "measure (\<lambda>(sched, fs). length fs)") auto

definition submit_all :: "(nat \<Rightarrow> ticker \<Rightarrow> 'r) \<Rightarrow> ticker list \<Rightarrow> (ticker \<times> (exn + 'r)) list" where
  "submit_all task tickers =
     map (\<lambda>(i, t). (t, Inr (task i t))) (zip [0..<length tickers] tickers)"

text \<open>The loop of \<open>get_valid_tickers\<close> over the completed futures.\<close>

fun collect_valid :: "(ticker \<times> (exn + bool)) list \<Rightarrow> ticker list \<Rightarrow> ticker list" where
  "collect_valid [] valid = valid"
| "collect_valid ((t, Inr b) # fs) valid =
     collect_valid fs (if b then valid @ [t] else valid)"
| "collect_valid ((t, Inl e) # fs) valid = collect_valid fs valid"

text \<open>
  \<open>probe i\<close> is the provider as the \<open>i\<close>-th submitted validation task meets it.
\<close>

definition get_valid_tickers :: "nat list \<Rightarrow> (nat \<Rightarrow> provider) \<Rightarrow> ticker list \<Rightarrow> ticker list" where
  "get_valid_tickers sched probe tickers =
     collect_valid
       (as_completed sched (submit_all (\<lambda>i t. is_valid_ticker (probe i) t) tickers)) []"

subsection \<open>FinancialAnalytics: the pipeline\<close>

definition get_nse_symbols :: "string list" where
  "get_nse_symbols =
     [''RELIANCE'', ''TCS'', ''HDFCBANK'', ''INFY'', ''HINDUNILVR'',
      ''ICICIBANK'', ''KOTAKBANK'', ''BHARTIARTL'', ''LT'', ''SBIN'']"

definition get_bse_symbols :: "string list" where
  "get_bse_symbols =
     [''TATASTEEL'', ''ONGC'', ''ITC'', ''SBIN'', ''AXISBANK'',
      ''MARUTI'', ''NTPC'', ''SUNPHARMA'', ''WIPRO'', ''DRREDDY'']"

fun all_tickers :: "string list \<Rightarrow> ticker list" where
  "all_tickers [] = []"
| "all_tickers (exchange # exchanges) =
     (if exchange = ''NSE'' then map (\<lambda>t. t @ ''.NS'') get_nse_symbols
      else if exchange = ''BSE'' then map (\<lambda>t. t @ ''.BO'') get_bse_symbols
      else [])
     @ all_tickers exchanges"

text \<open>The loop of \<open>process_market\<close> over the completed futures.\<close>

fun collect ::
  "(ticker \<times> (exn + analysis_result option)) list
     \<Rightarrow> analysis_result list \<times> ticker list \<Rightarrow> analysis_result list \<times> ticker list" where
  "collect [] (results, skipped) = (results, skipped)"
| "collect ((t, Inr (Some result)) # fs) (results, skipped) =
     collect fs (results @ [result], skipped)"
| "collect ((t, Inr None) # fs) (results, skipped) = collect fs (results, skipped @ [t])"
| "collect ((t, Inl e) # fs) (results, skipped) = collect fs (results, skipped @ [t])"

text \<open>
  \<open>bars i\<close> is the provider as the \<open>i\<close>-th submitted analysis task meets it;
  \<open>sched1\<close> and \<open>sched2\<close> are the completion orders of the two pools.
\<close>

definition process_market ::
  "nat list \<Rightarrow> nat list \<Rightarrow> (nat \<Rightarrow> provider) \<Rightarrow> (nat \<Rightarrow> provider) \<Rightarrow> string list
     \<Rightarrow> analysis_result list \<times> ticker list \<times> int" where
  "process_market sched1 sched2 probe bars exchanges =
     (let tickers = all_tickers exchanges;
          valid_tickers = get_valid_tickers sched1 probe tickers;
          futures = submit_all (\<lambda>i t. process_single_ticker (bars i) t) valid_tickers;
          (results, skipped) = collect (as_completed sched2 futures) ([], [])
      in (results, skipped, int (length tickers) - int (length valid_tickers)))"

subsection \<open>AnalyticsReporter\<close>

text \<open>
  \<open>np.where(cond, x, y)\<close> on columns, element by element; a scalar argument stands
  for the column that repeats it.
\<close>

definition np_where :: "bool list \<Rightarrow> 'a list \<Rightarrow> 'a list \<Rightarrow> 'a list" where
  "np_where cond xs ys = map (\<lambda>(c, x, y). if c then x else y) (zip cond (zip xs ys))"

definition col_and :: "bool list \<Rightarrow> bool list \<Rightarrow> bool list" where
  "col_and xs ys = map (\<lambda>(x, y). x \<and> y) (zip xs ys)"

text \<open>
  \<open>generate_report\<close> returns nothing; the model gives the \<open>Recommendation\<close> column
  it adds to the frame of results (none when the frame is empty).
\<close>

definition generate_report :: "analysis_result list \<Rightarrow> ticker list \<Rightarrow> int \<Rightarrow> string list option" where
  "generate_report results skipped invalid_count =
     (if results = [] then None
      else
        let n = length results;
            z = map Z_Score results;
            r = map Risk_Adj_Return results
        in Some
          (np_where
             (col_and (map (\<lambda>x. fgt x (Fin 1)) z) (map (\<lambda>x. fgt x (Fin 0)) r))
             (replicate n ''Buy'')
             (np_where
                (col_and (map (\<lambda>x. flt x (Fin (- 1))) z) (map (\<lambda>x. flt x (Fin 0)) r))
                (replicate n ''Avoid'')
                (replicate n ''Neutral''))))"

subsection \<open>MarketDataProcessor: the session\<close>

text \<open>
  A \<open>datetime\<close> in the market's zone (Asia/Kolkata): its date as the proleptic
  Gregorian ordinal (\<open>toordinal()\<close>, day 1 is Monday 0001-01-01) and its wall-clock
  fields.
\<close>

record datetime =
  ordinal :: int
  hour :: nat
  minute :: nat
  second :: nat
  microsecond :: nat

definition MAXORDINAL :: int where
  "MAXORDINAL = 3652059"

definition date_weekday :: "int \<Rightarrow> int" where
  "date_weekday d = (d + 6) mod 7"

definition weekday :: "datetime \<Rightarrow> int" where
  "weekday dt = date_weekday (ordinal dt)"

text \<open>\<open>now - timedelta(days=delta)\<close>: a date before day 1 raises \<open>OverflowError\<close>.\<close>

definition sub_days :: "datetime \<Rightarrow> int \<Rightarrow> exn + datetime" where
  "sub_days now delta =
     (let d = ordinal now - delta
      in if 0 < d \<and> d \<le> MAXORDINAL then Inr (now\<lparr>ordinal := d\<rparr>) else Inl OverflowError)"

text \<open>The \<open>while True\<close> loop of \<open>_get_market_day\<close>, entered with \<open>delta = 1\<close>.\<close>

function market_day_loop :: "datetime \<Rightarrow> int \<Rightarrow> exn + int" where
  "market_day_loop now delta =
     (case sub_days now delta of
        Inl e \<Rightarrow> Inl e
      | Inr candidate \<Rightarrow>
          if weekday candidate < 5 then Inr (ordinal candidate)
          else market_day_loop now (delta + 1))"
  by pat_completeness auto
termination
  by (relation "measure (\<lambda>(now, delta). nat (ordinal now - delta))")
     (auto simp: sub_days_def Let_def split: if_splits)

declare market_day_loop.simps [simp del]

definition get_market_day :: "datetime \<Rightarrow> exn + int" where
  "get_market_day now =
     (if 5 \<le> weekday now \<or> hour now < 9 \<or> 16 \<le> hour now
      then market_day_loop now 1
      else Inr (ordinal now))"

text \<open>
  \<open>_get_market_hours\<close> (lines 68 to 74 of the source) is not modelled: its two
  \<open>localize(\<close> calls are never closed, so the function has no reading as it stands.
  The session is therefore followed up to its date, which \<open>_get_market_day\<close> alone
  decides.
\<close>

subsection \<open>Notions of the specification\<close>

text \<open>
  The specification's words, to compare the code with: the mean, the variance and the
  two standard deviations of a sequence of numbers, the per-bar fractional returns and
  the whole-session percent return of a series, and the latest weekday at or before a
  date.
\<close>

definition mean_of :: "real list \<Rightarrow> real" where
  "mean_of xs = sum_list xs / real (length xs)"

definition sum_sq_dev :: "real list \<Rightarrow> real" where
  "sum_sq_dev xs = sum_list (map (\<lambda>x. (x - mean_of xs)\<^sup>2) xs)"


definition population_std :: "real list \<Rightarrow> real" where
  "population_std xs = sqrt (sum_sq_dev xs / real (length xs))"

definition sample_std :: "real list \<Rightarrow> real" where
  "sample_std xs = sqrt (sum_sq_dev xs / (real (length xs) - 1))"

definition fractional_returns :: "real list \<Rightarrow> real list" where
  "fractional_returns ps = map (\<lambda>(prev, cur). (cur - prev) / prev) (zip ps (tl ps))"

definition session_return_pct :: "real list \<Rightarrow> real" where
  "session_return_pct ps = (last ps - hd ps) / hd ps * 100"

fun latest_weekday_at_or_before :: "int \<Rightarrow> int" where
  "latest_weekday_at_or_before d =
     (if date_weekday d < 5 then d
      else if date_weekday (d - 1) < 5 then d - 1
      else d - 2)"

subsection \<open>What the loops collect\<close>

text \<open>
  The contribution of one completed future to \<open>valid\<close>, to \<open>results\<close> and to
  \<open>skipped\<close>, as a multiset: the loops add these up in the order of completion.
\<close>

fun valid_mset :: "ticker \<times> (exn + bool) \<Rightarrow> ticker multiset" where
  "valid_mset (t, Inr b) = (if b then {#t#} else {#})"
| "valid_mset (t, Inl e) = {#}"

fun res_mset :: "ticker \<times> (exn + analysis_result option) \<Rightarrow> analysis_result multiset" where
  "res_mset (t, Inr (Some r)) = {#r#}"
| "res_mset (t, Inr None) = {#}"
| "res_mset (t, Inl e) = {#}"

fun skip_mset :: "ticker \<times> (exn + analysis_result option) \<Rightarrow> ticker multiset" where
  "skip_mset (t, Inr (Some r)) = {#}"
| "skip_mset (t, Inr None) = {#t#}"
| "skip_mset (t, Inl e) = {#t#}"

subsection \<open>A sample run\<close>

text \<open>
  A provider that knows the first three tickers submitted, with sixty bars at 5 for the
  first, ten bars for the second and a network error for the third; and five rows of a
  report, the last without numbers.
\<close>

definition example_probe :: "nat \<Rightarrow> provider" where
  "example_probe i t = (if i < 3 then Inr [1] else Inl TimeoutError)"

definition example_bars :: "nat \<Rightarrow> provider" where
  "example_bars i t =
     (if t = ''RELIANCE.NS'' then Inr (replicate 60 5)
      else if t = ''TCS.NS'' then Inr (replicate 10 5)
      else Inl NetworkError)"

definition example_result :: analysis_result where
  "example_result =
     \<lparr> Ticker = ''RELIANCE.NS'', Current_Price = Fin 5, Daily_Return = Fin 0,
       Volatility = Fin 0, Risk_Adj_Return = Fin 0, Z_Score = Fin 0 \<rparr>"

definition example_rows :: "analysis_result list" where
  "example_rows =
     [\<lparr> Ticker = ''A'', Current_Price = Fin 1, Daily_Return = Fin 1, Volatility = Fin 1,
         Risk_Adj_Return = Fin (1 / 5), Z_Score = Fin (3 / 2) \<rparr>,
      \<lparr> Ticker = ''B'', Current_Price = Fin 1, Daily_Return = Fin 1, Volatility = Fin 1,
         Risk_Adj_Return = Fin (- 1 / 10), Z_Score = Fin (- 2) \<rparr>,
      \<lparr> Ticker = ''C'', Current_Price = Fin 1, Daily_Return = Fin 1, Volatility = Fin 1,
         Risk_Adj_Return = Fin 5, Z_Score = Fin (1 / 2) \<rparr>,
      \<lparr> Ticker = ''D'', Current_Price = Fin 1, Daily_Return = Fin 1, Volatility = Fin 1,
         Risk_Adj_Return = Fin 1, Z_Score = Fin 1 \<rparr>,
      \<lparr> Ticker = ''E'', Current_Price = Fin 1, Daily_Return = NaN, Volatility = NaN,
         Risk_Adj_Return = NaN, Z_Score = NaN \<rparr>]"

section \<open>Properties of the arithmetic and the statistics\<close>

lemma fsum_map_Fin: "fsum (map Fin xs) = Fin (sum_list xs)"
  by (induction xs) auto

lemma np_mean_Fin: "xs \<noteq> [] \<Longrightarrow> np_mean (map Fin xs) = Fin (mean_of xs)"
  by (simp add: np_mean_def mean_of_def fsum_map_Fin)

lemma sum_sq_dev_nonneg: "0 \<le> sum_sq_dev xs"
  unfolding sum_sq_dev_def by (rule sum_list_nonneg) auto

lemma fsum_sq_about:
  "fsum (map (\<lambda>a. fmul a a) (map (\<lambda>a. fsub a (Fin c)) (map Fin xs)))
     = Fin (sum_list (map (\<lambda>x. (x - c)\<^sup>2) xs))"
  by (induction xs) (auto simp: fsub_def power2_eq_square)

lemma fsum_sq_from:
  "fsum (map (\<lambda>x. fmul (fsub (Fin c) x) (fsub (Fin c) x)) (map Fin xs))
     = Fin (sum_list (map (\<lambda>x. (x - c)\<^sup>2) xs))"
  by (induction xs) (auto simp: fsub_def power2_eq_square algebra_simps)

lemma np_std_Fin: "xs \<noteq> [] \<Longrightarrow> np_std (map Fin xs) = Fin (population_std xs)"
proof -
  assume ne: "xs \<noteq> []"
  have m: "fdiv (fsum (map Fin xs)) (Fin (real (length xs))) = Fin (mean_of xs)"
    using ne by (simp add: mean_of_def fsum_map_Fin)
  have "np_std (map Fin xs) = fsqrt (fdiv (Fin (sum_sq_dev xs)) (Fin (real (length xs))))"
    unfolding np_std_def Let_def by (simp only: length_map m fsum_sq_about sum_sq_dev_def)
  also have "\<dots> = Fin (population_std xs)"
    using ne sum_sq_dev_nonneg [of xs] by (simp add: population_std_def)
  finally show ?thesis .
qed

lemma pd_std_Fin: "2 \<le> length xs \<Longrightarrow> pd_std (map Fin xs) = Fin (sample_std xs)"
proof -
  assume len: "2 \<le> length xs"
  then have ne: "xs \<noteq> []" and gt: "\<not> length xs \<le> 1" by auto
  have m: "fdiv (fsum (map Fin xs)) (Fin (real (length xs))) = Fin (mean_of xs)"
    using ne by (simp add: mean_of_def fsum_map_Fin)
  have "pd_std (map Fin xs) = fsqrt (fdiv (Fin (sum_sq_dev xs)) (Fin (real (length xs - 1))))"
    unfolding pd_std_def Let_def
    by (simp only: length_map gt if_False m fsum_sq_from sum_sq_dev_def)
  also have "\<dots> = Fin (sample_std xs)"
    using len sum_sq_dev_nonneg [of xs] by (simp add: sample_std_def of_nat_diff)
  finally show ?thesis .
qed

lemma pct_step: "fsub (fdiv (Fin cur) (Fin prev)) (Fin 1) = fdiv (fsub (Fin cur) (Fin prev)) (Fin prev)"
  by (simp add: fsub_def field_simps)

lemma pct_change_Cons: "pct_change (p # ps) = NaN # map (\<lambda>(prev, cur). fdiv (fsub (Fin cur) (Fin prev)) (Fin prev)) (zip (p # ps) ps)"
  by (simp only: pct_change_def list.case pct_step)

lemma returns_nonzero:
  "0 \<notin> set ps \<Longrightarrow> returns ps = map Fin (fractional_returns ps)"
proof (cases ps)
  case Nil
  then show ?thesis by (simp add: returns_def pct_change_def dropna_def fractional_returns_def)
next
  case (Cons p rest)
  assume nz: "0 \<notin> set ps"
  have "\<And>prev cur. (prev, cur) \<in> set (zip ps rest) \<Longrightarrow> prev \<noteq> 0"
    using nz by (metis set_zip_leftD)
  then have "map (\<lambda>(prev, cur). fdiv (fsub (Fin cur) (Fin prev)) (Fin prev)) (zip ps rest)
        = map (\<lambda>(prev, cur). Fin ((cur - prev) / prev)) (zip ps rest)"
    by (intro map_cong) (auto simp: fsub_def)
  then show ?thesis
    using Cons by (simp add: returns_def pct_change_Cons dropna_def fractional_returns_def
        filter_map o_def split_def)
qed

lemma market_returns_eq: "market_returns data = returns data"
  by (simp add: market_returns_def returns_def dropna_def)

lemma length_fractional_returns: "length (fractional_returns ps) = length ps - 1"
  by (simp add: fractional_returns_def)

section \<open>Properties of the analysis of one ticker\<close>

lemma fetch_intraday_data_eq:
  "fetch_intraday_data yf t calls = ((case yf t of Inr data \<Rightarrow> data | Inl e \<Rightarrow> []), calls @ [t])"
  by (simp add: fetch_intraday_data_def history_def split: sum.splits)

lemma analyze_nonempty:
  "data \<noteq> [] \<Longrightarrow>
   analyze t data =
     Some \<lparr> Ticker = t, Current_Price = Fin (last data),
            Daily_Return = daily_return_pct (Fin (last data)) (Fin (hd data)),
            Volatility = volatility data,
            Risk_Adj_Return =
              risk_adj_return (daily_return_pct (Fin (last data)) (Fin (hd data))) (volatility data),
            Z_Score = z_score (daily_return_pct (Fin (last data)) (Fin (hd data))) data \<rparr>"
  by (cases data) (simp_all add: analyze_def iloc_first_def iloc_last_def Let_def)

lemma process_single_ticker_enough:
  assumes "yf t = Inr data" and "MIN_DATA_POINTS \<le> length data"
  shows "process_single_ticker yf t = analyze t data" and "data \<noteq> []"
  using assms by (auto simp: process_single_ticker_def fetch_intraday_data_eq MIN_DATA_POINTS_def)

lemma daily_return_pct_Fin:
  "opn \<noteq> 0 \<Longrightarrow> daily_return_pct (Fin cur) (Fin opn) = Fin ((cur - opn) / opn * 100)"
  by (simp add: daily_return_pct_def fsub_def)

lemma risk_adj_return_Fin:
  "risk_adj_return (Fin d) (Fin v) = Fin (if v = 0 then 0 else d / v)"
  by (simp add: risk_adj_return_def)

lemma z_score_Fin:
  assumes "0 \<notin> set data" and "2 \<le> length data"
  shows "z_score (Fin d) data =
    Fin (if population_std (fractional_returns data) = 0 then 0
         else (d - mean_of (fractional_returns data)) / population_std (fractional_returns data))"
proof -
  let ?rs = "fractional_returns data"
  have ne: "?rs \<noteq> []"
    using assms(2) length_fractional_returns [of data] by (cases ?rs) auto
  have s: "market_std data = Fin (population_std ?rs)"
    using ne by (simp add: market_std_def market_returns_eq returns_nonzero [OF assms(1)] np_std_Fin)
  have m: "market_mean data = Fin (mean_of ?rs)"
    using ne by (simp add: market_mean_def market_returns_eq returns_nonzero [OF assms(1)] np_mean_Fin)
  show ?thesis
    by (simp add: z_score_def s m fsub_def)
qed

lemma volatility_Fin:
  assumes "0 \<notin> set data" and "3 \<le> length data"
  shows "volatility data = Fin (sample_std (fractional_returns data))"
proof -
  have "2 \<le> length (fractional_returns data)"
    using assms(2) by (simp add: length_fractional_returns)
  then show ?thesis
    by (simp add: volatility_def returns_nonzero [OF assms(1)] pd_std_Fin)
qed

lemma analyze_finite:
  assumes nz: "0 \<notin> set data" and len: "3 \<le> length data"
  shows "analyze t data =
     Some \<lparr> Ticker = t, Current_Price = Fin (last data),
            Daily_Return = Fin (session_return_pct data),
            Volatility = Fin (sample_std (fractional_returns data)),
            Risk_Adj_Return =
              Fin (if sample_std (fractional_returns data) = 0 then 0
                   else session_return_pct data / sample_std (fractional_returns data)),
            Z_Score =
              Fin (if population_std (fractional_returns data) = 0 then 0
                   else (session_return_pct data - mean_of (fractional_returns data))
                          / population_std (fractional_returns data)) \<rparr>"
proof -
  have ne: "data \<noteq> []" using len by auto
  then have "hd data \<in> set data" by simp
  then have h: "hd data \<noteq> 0" using nz by metis
  have d: "daily_return_pct (Fin (last data)) (Fin (hd data)) = Fin (session_return_pct data)"
    using h by (simp add: daily_return_pct_Fin session_return_pct_def)
  have len2: "2 \<le> length data" using len by simp
  show ?thesis
    unfolding analyze_nonempty [OF ne] d volatility_Fin [OF nz len] z_score_Fin [OF nz len2]
      risk_adj_return_Fin ..
qed

lemma fractional_returns_constant:
  "c \<noteq> 0 \<Longrightarrow> fractional_returns (replicate n c) = replicate (n - 1) 0"
  by (simp add: fractional_returns_def tl_replicate zip_replicate)

lemma sum_sq_dev_zeros: "sum_sq_dev (replicate m 0) = 0"
  by (simp add: sum_sq_dev_def mean_of_def sum_list_replicate map_replicate)

lemma constant_set: "set data = {c} \<Longrightarrow> data = replicate (length data) c"
  by (simp add: replicate_length_same)

lemma constant_frame:
  assumes c: "c \<noteq> 0" and n: "3 \<le> n"
  shows "analyze t (replicate n c) =
     Some \<lparr> Ticker = t, Current_Price = Fin c, Daily_Return = Fin 0, Volatility = Fin 0,
            Risk_Adj_Return = Fin 0, Z_Score = Fin 0 \<rparr>"
proof -
  have nz: "0 \<notin> set (replicate n c)" using c by auto
  have len: "3 \<le> length (replicate n c)" using n by simp
  have ne: "replicate n c \<noteq> []" using n by auto
  have l: "last (replicate n c) = c" and h: "hd (replicate n c) = c"
    using ne by (simp_all add: hd_replicate)
  have s: "sample_std (replicate (n - 1) 0) = 0" "population_std (replicate (n - 1) 0) = 0"
    by (simp_all add: sample_std_def population_std_def sum_sq_dev_zeros)
  have d: "session_return_pct (replicate n c) = 0"
    by (simp add: session_return_pct_def l h)
  show ?thesis
    unfolding analyze_finite [OF nz len] fractional_returns_constant [OF c] s d l by simp
qed

lemma zero_frame:
  assumes z: "set data = {0}"
  shows "analyze t data =
     Some \<lparr> Ticker = t, Current_Price = Fin 0, Daily_Return = NaN, Volatility = NaN,
            Risk_Adj_Return = NaN, Z_Score = NaN \<rparr>"
proof -
  have ne: "data \<noteq> []" using z by auto
  then have "hd data \<in> set data" and "last data \<in> set data" by simp_all
  then have h: "hd data = 0" and l: "last data = 0" using z by auto
  have zz: "fsub (fdiv (Fin cur) (Fin prev)) (Fin 1) = NaN"
    if "(prev, cur) \<in> set (zip data (tl data))" for prev cur
  proof -
    have "prev \<in> set data" and "cur \<in> set (tl data)"
      using that by (auto elim: in_set_zipE)
    then have "prev \<in> set data" and "cur \<in> set data"
      using list.set_sel(2) [OF ne] by auto
    then have "prev = 0" and "cur = 0"
      unfolding z by simp_all
    then show ?thesis by (simp add: fsub_def)
  qed
  have "map (\<lambda>(prev, cur). fsub (fdiv (Fin cur) (Fin prev)) (Fin 1)) (zip data (tl data))
          = map (\<lambda>x. NaN) (zip data (tl data))"
    by (rule map_cong) (auto dest: zz)
  then have "pct_change data = NaN # map (\<lambda>x. NaN) (zip data (tl data))"
    using ne by (cases data) (simp_all add: pct_change_def)
  then have r: "returns data = []"
    by (simp add: returns_def dropna_def filter_empty_conv)
  have v: "volatility data = NaN"
    by (simp add: volatility_def r pd_std_def)
  have m: "market_std data = NaN" "market_mean data = NaN"
    by (simp_all add: market_std_def market_mean_def market_returns_def r np_std_def np_mean_def)
  have d: "daily_return_pct (Fin 0) (Fin 0) = NaN"
    by (simp add: daily_return_pct_def fsub_def)
  show ?thesis
    unfolding analyze_nonempty [OF ne] h l d v
    by (simp add: risk_adj_return_def z_score_def m fsub_def)
qed


section \<open>Properties of the pools and the loops\<close>

lemma mset_remove_nth:
  "j < length xs \<Longrightarrow> add_mset (xs ! j) (mset (take j xs @ drop (Suc j) xs)) = mset xs"
proof -
  assume "j < length xs"
  then have "xs = take j xs @ xs ! j # drop (Suc j) xs"
    by (rule id_take_nth_drop)
  then have "mset xs = mset (take j xs @ xs ! j # drop (Suc j) xs)"
    by simp
  then show ?thesis by simp
qed

lemma mset_as_completed: "mset (as_completed sched fs) = mset fs"
proof (induction sched fs rule: as_completed.induct)
  case (3 k sched f fs)
  let ?xs = "f # fs"
  let ?j = "k mod length ?xs"
  have j: "?j < length ?xs" by simp
  have "mset (as_completed (k # sched) ?xs)
          = add_mset (?xs ! ?j) (mset (take ?j ?xs @ drop (Suc ?j) ?xs))"
    using 3 by (simp add: Let_def)
  also have "\<dots> = mset ?xs"
    using j by (rule mset_remove_nth)
  finally show ?case .
qed simp_all

lemma length_as_completed: "length (as_completed sched fs) = length fs"
  using mset_as_completed [of sched fs] by (metis size_mset)

lemma as_completed_onto:
  "mset ys = mset xs \<Longrightarrow> \<exists>sched. as_completed sched xs = ys"
proof (induction ys arbitrary: xs)
  case Nil
  then show ?case by simp
next
  case (Cons y ys)
  then have "y \<in> set xs" by (metis list.set_intros(1) set_mset_mset)
  then obtain j where j: "j < length xs" "xs ! j = y"
    by (auto simp: in_set_conv_nth)
  then obtain f fs where xs: "xs = f # fs" by (cases xs) auto
  have "add_mset y (mset (take j xs @ drop (Suc j) xs)) = mset xs"
    using j mset_remove_nth [of j xs] by simp
  then have "add_mset y (mset (take j xs @ drop (Suc j) xs)) = add_mset y (mset ys)"
    using Cons.prems by simp
  then have "mset ys = mset (take j xs @ drop (Suc j) xs)"
    by (simp only: add_mset_add_mset_same_iff)
  then obtain sched where "as_completed sched (take j xs @ drop (Suc j) xs) = ys"
    using Cons.IH by blast
  then have "as_completed (j # sched) xs = y # ys"
    using j unfolding xs by (simp add: Let_def)
  then show ?case by blast
qed

lemma collect_valid_mset:
  "mset (collect_valid fs valid) = mset valid + (\<Sum>f\<in>#mset fs. valid_mset f)"
  by (induction fs valid rule: collect_valid.induct) auto

lemma collect_mset:
  "mset (fst (collect fs (results, skipped))) = mset results + (\<Sum>f\<in>#mset fs. res_mset f)
   \<and> mset (snd (collect fs (results, skipped))) = mset skipped + (\<Sum>f\<in>#mset fs. skip_mset f)"
  by (induction fs "(results, skipped)" arbitrary: results skipped rule: collect.induct) auto

lemma map_fst_submit_all: "map fst (submit_all task ts) = ts"
proof -
  have "map fst (submit_all task ts) = map snd (zip [0..<length ts] ts)"
    unfolding submit_all_def by (rule nth_equalityI) auto
  also have "\<dots> = ts"
    by (rule map_snd_zip) simp
  finally show ?thesis .
qed

lemma length_submit_all: "length (submit_all task ts) = length ts"
  by (simp add: submit_all_def)

lemma submit_all_outcome:
  "(t, out) \<in> set (submit_all task ts) \<Longrightarrow> \<exists>i < length ts. ts ! i = t \<and> out = Inr (task i t)"
  by (auto simp: submit_all_def set_zip)

lemma submit_all_member:
  "i < length ts \<Longrightarrow> (ts ! i, Inr (task i (ts ! i))) \<in> set (submit_all task ts)"
  by (force simp: submit_all_def set_zip)

lemma valid_mset_le: "(\<Sum>f\<in>#mset fs. valid_mset f) \<subseteq># mset (map fst fs)"
proof (induction fs)
  case Nil
  then show ?case by simp
next
  case (Cons f fs)
  have "valid_mset f \<subseteq># {#fst f#}"
    by (cases f rule: valid_mset.cases) auto
  then have "valid_mset f + (\<Sum>f\<in>#mset fs. valid_mset f) \<subseteq># {#fst f#} + mset (map fst fs)"
    using Cons.IH by (rule subset_mset.add_mono)
  then show ?case by simp
qed

lemma mset_get_valid_tickers:
  "mset (get_valid_tickers sched probe tickers)
     = (\<Sum>f\<in>#mset (submit_all (\<lambda>i t. is_valid_ticker (probe i) t) tickers). valid_mset f)"
  by (simp add: get_valid_tickers_def collect_valid_mset mset_as_completed)

lemma valid_tickers_le: "mset (get_valid_tickers sched probe tickers) \<subseteq># mset tickers"
  using valid_mset_le [of "submit_all (\<lambda>i t. is_valid_ticker (probe i) t) tickers"]
  by (simp only: mset_get_valid_tickers map_fst_submit_all)

lemma results_skipped_partition:
  "(\<And>t r. (t, Inr (Some r)) \<in> set fs \<Longrightarrow> Ticker r = t) \<Longrightarrow>
   image_mset Ticker (\<Sum>f\<in>#mset fs. res_mset f) + (\<Sum>f\<in>#mset fs. skip_mset f)
     = mset (map fst fs)"
proof (induction fs)
  case Nil
  then show ?case by simp
next
  case (Cons f fs)
  have "image_mset Ticker (res_mset f) + skip_mset f = {#fst f#}"
    using Cons.prems [of "fst f"] by (cases f rule: res_mset.cases) auto
  moreover have "image_mset Ticker (\<Sum>f\<in>#mset fs. res_mset f) + (\<Sum>f\<in>#mset fs. skip_mset f)
     = mset (map fst fs)"
    using Cons by simp
  ultimately show ?case by (simp add: algebra_simps)
qed

lemma analyze_Ticker: "analyze t data = Some r \<Longrightarrow> Ticker r = t"
  by (auto simp: analyze_def Let_def split: sum.splits)

lemma process_single_ticker_Ticker: "process_single_ticker yf t = Some r \<Longrightarrow> Ticker r = t"
  by (auto simp: process_single_ticker_def Let_def analyze_Ticker split: if_splits)

lemma process_market_unfold:
  "process_market sched1 sched2 probe bars exchanges =
     (fst (collect (as_completed sched2
        (submit_all (\<lambda>i t. process_single_ticker (bars i) t)
           (get_valid_tickers sched1 probe (all_tickers exchanges)))) ([], [])),
      snd (collect (as_completed sched2
        (submit_all (\<lambda>i t. process_single_ticker (bars i) t)
           (get_valid_tickers sched1 probe (all_tickers exchanges)))) ([], [])),
      int (length (all_tickers exchanges))
        - int (length (get_valid_tickers sched1 probe (all_tickers exchanges))))"
  by (simp add: process_market_def Let_def split_def)

lemma process_market_partition:
  assumes "process_market sched1 sched2 probe bars exchanges = (results, skipped, invalid_count)"
  shows "mset (map Ticker results) + mset skipped
           = mset (get_valid_tickers sched1 probe (all_tickers exchanges))"
    and "invalid_count = int (length (all_tickers exchanges))
           - int (length (get_valid_tickers sched1 probe (all_tickers exchanges)))"
proof -
  let ?valid = "get_valid_tickers sched1 probe (all_tickers exchanges)"
  let ?fs = "submit_all (\<lambda>i t. process_single_ticker (bars i) t) ?valid"
  have r: "results = fst (collect (as_completed sched2 ?fs) ([], []))"
    and s: "skipped = snd (collect (as_completed sched2 ?fs) ([], []))"
    and n: "invalid_count = int (length (all_tickers exchanges)) - int (length ?valid)"
    using assms unfolding process_market_unfold by auto
  have tick: "\<And>t r. (t, Inr (Some r)) \<in> set ?fs \<Longrightarrow> Ticker r = t"
    by (auto dest!: submit_all_outcome dest: process_single_ticker_Ticker [OF sym])
  have "mset (map Ticker results) + mset skipped
          = image_mset Ticker (\<Sum>f\<in>#mset ?fs. res_mset f) + (\<Sum>f\<in>#mset ?fs. skip_mset f)"
    unfolding r s using collect_mset [of "as_completed sched2 ?fs" "[]" "[]"]
    by (simp add: mset_as_completed)
  also have "\<dots> = mset (map fst ?fs)"
    using tick by (rule results_skipped_partition)
  finally show "mset (map Ticker results) + mset skipped = mset ?valid"
    by (simp only: map_fst_submit_all)
  show "invalid_count = int (length (all_tickers exchanges)) - int (length ?valid)"
    by (rule n)
qed

lemma distinct_submset:
  assumes le: "mset xs \<subseteq># mset ys" and d: "distinct ys"
  shows "distinct xs"
proof -
  have c: "count (mset xs) a \<le> 1" for a
  proof -
    have "count (mset ys) a \<le> 1"
      using d by (simp add: distinct_count_atmost_1)
    then show ?thesis
      using mset_subset_eq_count [OF le, of a] by simp
  qed
  have "count (mset xs) a = (if a \<in> set xs then 1 else 0)" for a
  proof (cases "a \<in> set xs")
    case True
    then have "a \<in># mset xs" by simp
    then have "0 < count (mset xs) a" by (simp only: count_greater_zero_iff)
    then show ?thesis using c [of a] True by arith
  next
    case False
    then show ?thesis by (simp add: count_eq_zero_iff)
  qed
  then show ?thesis
    by (simp only: distinct_count_atmost_1) simp
qed

lemma sum_mset_member_le:
  "f \<in># M \<Longrightarrow> g f \<subseteq># (\<Sum>x\<in>#M. g x)"
  by (induction M) (auto intro: subset_mset.order_trans [OF _ mset_subset_eq_add_right])

lemma sum_mset_memberD:
  "r \<in># (\<Sum>x\<in>#M. g x) \<Longrightarrow> \<exists>f. f \<in># M \<and> r \<in># g f"
  by (induction M) auto

lemma none_is_skipped:
  assumes pm: "process_market sched1 sched2 probe bars exchanges = (results, skipped, invalid_count)"
    and i: "i < length (get_valid_tickers sched1 probe (all_tickers exchanges))"
    and none: "process_single_ticker (bars i)
                 (get_valid_tickers sched1 probe (all_tickers exchanges) ! i) = None"
  shows "get_valid_tickers sched1 probe (all_tickers exchanges) ! i \<in> set skipped"
proof -
  let ?valid = "get_valid_tickers sched1 probe (all_tickers exchanges)"
  let ?fs = "submit_all (\<lambda>i t. process_single_ticker (bars i) t) ?valid"
  have s: "skipped = snd (collect (as_completed sched2 ?fs) ([], []))"
    using pm unfolding process_market_unfold by auto
  have "(?valid ! i, Inr None) \<in> set ?fs"
    using submit_all_member [OF i, of "\<lambda>i t. process_single_ticker (bars i) t"] none by simp
  then have "(?valid ! i, Inr None) \<in># mset ?fs" by simp
  then have "skip_mset (?valid ! i, Inr None) \<subseteq># (\<Sum>f\<in>#mset ?fs. skip_mset f)"
    by (rule sum_mset_member_le)
  then have "?valid ! i \<in># (\<Sum>f\<in>#mset ?fs. skip_mset f)"
    by (simp add: mset_subset_eq_insertD)
  moreover have "mset skipped = (\<Sum>f\<in>#mset ?fs. skip_mset f)"
    unfolding s using collect_mset [of "as_completed sched2 ?fs" "[]" "[]"]
    by (simp add: mset_as_completed)
  ultimately have "?valid ! i \<in># mset skipped" by simp
  then show ?thesis by simp
qed

lemma process_single_ticker_cong:
  "yf t = yf' t \<Longrightarrow> process_single_ticker yf t = process_single_ticker yf' t"
  by (simp add: process_single_ticker_def fetch_intraday_data_eq)

lemma submit_all_indep:
  assumes "\<forall>i j t. task i t = task j t"
  shows "submit_all task ts = map (\<lambda>t. (t, Inr (task 0 t))) ts"
proof (rule nth_equalityI)
  show "length (submit_all task ts) = length (map (\<lambda>t. (t, Inr (task 0 t))) ts)"
    by (simp add: submit_all_def)
next
  fix i assume "i < length (submit_all task ts)"
  then have i: "i < length ts" by (simp add: submit_all_def)
  then have "submit_all task ts ! i = (ts ! i, Inr (task i (ts ! i)))"
    by (simp add: submit_all_def)
  also have "\<dots> = (ts ! i, Inr (task 0 (ts ! i)))"
    using assms by metis
  finally show "submit_all task ts ! i = map (\<lambda>t. (t, Inr (task 0 t))) ts ! i"
    using i by simp
qed

lemma process_market_msets:
  assumes indep: "\<forall>i j t. bars i t = bars j t"
    and pm: "process_market sched1 sched2 probe bars exchanges = (results, skipped, invalid_count)"
  shows "mset results =
      (\<Sum>f\<in>#image_mset (\<lambda>t. (t, Inr (process_single_ticker (bars 0) t)))
           (\<Sum>f\<in>#mset (submit_all (\<lambda>i t. is_valid_ticker (probe i) t) (all_tickers exchanges)).
               valid_mset f). res_mset f)"
    and "mset skipped =
      (\<Sum>f\<in>#image_mset (\<lambda>t. (t, Inr (process_single_ticker (bars 0) t)))
           (\<Sum>f\<in>#mset (submit_all (\<lambda>i t. is_valid_ticker (probe i) t) (all_tickers exchanges)).
               valid_mset f). skip_mset f)"
    and "invalid_count = int (length (all_tickers exchanges))
           - int (size (\<Sum>f\<in>#mset (submit_all (\<lambda>i t. is_valid_ticker (probe i) t)
                  (all_tickers exchanges)). valid_mset f))"
proof -
  let ?valid = "get_valid_tickers sched1 probe (all_tickers exchanges)"
  let ?fs = "submit_all (\<lambda>i t. process_single_ticker (bars i) t) ?valid"
  let ?V = "\<Sum>f\<in>#mset (submit_all (\<lambda>i t. is_valid_ticker (probe i) t) (all_tickers exchanges)).
               valid_mset f"
  have r: "results = fst (collect (as_completed sched2 ?fs) ([], []))"
    and s: "skipped = snd (collect (as_completed sched2 ?fs) ([], []))"
    and n: "invalid_count = int (length (all_tickers exchanges)) - int (length ?valid)"
    using pm unfolding process_market_unfold by auto
  have V: "mset ?valid = ?V"
    by (rule mset_get_valid_tickers)
  have "\<forall>i j t. process_single_ticker (bars i) t = process_single_ticker (bars j) t"
    using indep by (auto intro: process_single_ticker_cong)
  then have "?fs = map (\<lambda>t. (t, Inr (process_single_ticker (bars 0) t))) ?valid"
    by (rule submit_all_indep)
  then have fs: "mset ?fs = image_mset (\<lambda>t. (t, Inr (process_single_ticker (bars 0) t))) ?V"
    using V by (simp only: mset_map)
  show "mset results = (\<Sum>f\<in>#image_mset (\<lambda>t. (t, Inr (process_single_ticker (bars 0) t))) ?V.
      res_mset f)"
    unfolding r fs [symmetric] using collect_mset [of "as_completed sched2 ?fs" "[]" "[]"]
    by (simp add: mset_as_completed)
  show "mset skipped = (\<Sum>f\<in>#image_mset (\<lambda>t. (t, Inr (process_single_ticker (bars 0) t))) ?V.
      skip_mset f)"
    unfolding s fs [symmetric] using collect_mset [of "as_completed sched2 ?fs" "[]" "[]"]
    by (simp add: mset_as_completed)
  have "length ?valid = size ?V"
    using arg_cong [OF V, of size] by simp
  then show "invalid_count = int (length (all_tickers exchanges)) - int (size ?V)"
    using n by simp
qed

lemma all_tickers_NSE:
  "all_tickers [''NSE''] = [''RELIANCE.NS'', ''TCS.NS'', ''HDFCBANK.NS'', ''INFY.NS'',
      ''HINDUNILVR.NS'', ''ICICIBANK.NS'', ''KOTAKBANK.NS'', ''BHARTIARTL.NS'', ''LT.NS'', ''SBIN.NS'']"
  by (simp add: get_nse_symbols_def)

lemma example_valid_in_order:
  "get_valid_tickers [] example_probe (all_tickers [''NSE''])
     = [''RELIANCE.NS'', ''TCS.NS'', ''HDFCBANK.NS'']"
  unfolding all_tickers_NSE
  by (simp add: get_valid_tickers_def submit_all_def is_valid_ticker_def history_def upt_rec
      example_probe_def)

lemma example_valid_reordered:
  "get_valid_tickers [2] example_probe (all_tickers [''NSE''])
     = [''HDFCBANK.NS'', ''RELIANCE.NS'', ''TCS.NS'']"
  unfolding all_tickers_NSE
  by (simp add: get_valid_tickers_def submit_all_def is_valid_ticker_def history_def upt_rec
      example_probe_def)

lemma example_tasks:
  "process_single_ticker (example_bars i) ''RELIANCE.NS'' = Some example_result"
  "process_single_ticker (example_bars i) ''TCS.NS'' = None"
  "process_single_ticker (example_bars i) ''HDFCBANK.NS'' = None"
proof -
  show "process_single_ticker (example_bars i) ''RELIANCE.NS'' = Some example_result"
    using process_single_ticker_enough [of "example_bars i" "''RELIANCE.NS''" "replicate 60 5"]
      constant_frame [of 5 60 "''RELIANCE.NS''"]
    by (simp add: MIN_DATA_POINTS_def example_bars_def example_result_def)
  show "process_single_ticker (example_bars i) ''TCS.NS'' = None"
    by (simp add: process_single_ticker_def fetch_intraday_data_eq MIN_DATA_POINTS_def
        example_bars_def)
  show "process_single_ticker (example_bars i) ''HDFCBANK.NS'' = None"
    by (simp add: process_single_ticker_def fetch_intraday_data_eq MIN_DATA_POINTS_def
        example_bars_def)
qed

lemma example_run_in_order:
  "process_market [] [1] example_probe example_bars [''NSE'']
     = ([example_result], [''TCS.NS'', ''HDFCBANK.NS''], 7)"
  unfolding process_market_unfold all_tickers_NSE example_valid_in_order [unfolded all_tickers_NSE]
  by (simp add: submit_all_def upt_rec example_tasks)

lemma example_run_reordered:
  "process_market [2] [] example_probe example_bars [''NSE'']
     = ([example_result], [''HDFCBANK.NS'', ''TCS.NS''], 7)"
  unfolding process_market_unfold all_tickers_NSE example_valid_reordered [unfolded all_tickers_NSE]
  by (simp add: submit_all_def upt_rec example_tasks)

section \<open>Properties of the session and of the report\<close>

lemma date_weekday_minus: "date_weekday (d - k) = (date_weekday d - k) mod 7"
proof -
  have "d - k + 6 = d + 6 - k" by simp
  then show ?thesis
    unfolding date_weekday_def by (simp only: mod_diff_left_eq)
qed

lemma date_weekday_range: "0 \<le> date_weekday d \<and> date_weekday d < 7"
  by (simp add: date_weekday_def)

lemma weekday_three:
  assumes a: "\<not> date_weekday d < 5" and b: "\<not> date_weekday (d - 1) < 5"
  shows "date_weekday (d - 2) < 5"
proof -
  have "date_weekday d = 5 \<or> date_weekday d = 6"
    using a date_weekday_range [of d] by arith
  then show ?thesis
  proof
    assume "date_weekday d = 5"
    then have "date_weekday (d - 1) = 4"
      by (simp add: date_weekday_minus)
    then show ?thesis using b by simp
  next
    assume "date_weekday d = 6"
    then show ?thesis
      by (simp add: date_weekday_minus)
  qed
qed

lemma latest_weekday_spec:
  "latest_weekday_at_or_before d \<le> d
   \<and> d - 2 \<le> latest_weekday_at_or_before d
   \<and> date_weekday (latest_weekday_at_or_before d) < 5
   \<and> (\<forall>d'. latest_weekday_at_or_before d < d' \<and> d' \<le> d \<longrightarrow> 5 \<le> date_weekday d')"
proof (cases "date_weekday d < 5")
  case True
  then show ?thesis by simp
next
  case n0: False
  show ?thesis
  proof (cases "date_weekday (d - 1) < 5")
    case True
    have "5 \<le> date_weekday d'" if "d - 1 < d'" "d' \<le> d" for d'
    proof -
      have "d' = d" using that by arith
      then show ?thesis using n0 by simp
    qed
    then show ?thesis using n0 True by simp
  next
    case n1: False
    have w: "date_weekday (d - 2) < 5" using n0 n1 by (rule weekday_three)
    have "5 \<le> date_weekday d'" if "d - 2 < d'" "d' \<le> d" for d'
    proof -
      have "d' = d \<or> d' = d - 1" using that by arith
      then show ?thesis using n0 n1 by auto
    qed
    then show ?thesis using n0 n1 w by simp
  qed
qed

lemma sub_days_ok:
  "delta < ordinal now \<Longrightarrow> 0 \<le> delta \<Longrightarrow> ordinal now \<le> MAXORDINAL \<Longrightarrow>
   sub_days now delta = Inr (now\<lparr>ordinal := ordinal now - delta\<rparr>)"
  by (simp add: sub_days_def Let_def)

lemma market_day_loop_1:
  assumes lo: "3 < ordinal now" and hi: "ordinal now \<le> MAXORDINAL"
  shows "market_day_loop now 1 = Inr (latest_weekday_at_or_before (ordinal now - 1))"
proof -
  let ?o = "ordinal now"
  have s1: "sub_days now 1 = Inr (now\<lparr>ordinal := ?o - 1\<rparr>)"
    and s2: "sub_days now 2 = Inr (now\<lparr>ordinal := ?o - 2\<rparr>)"
    and s3: "sub_days now 3 = Inr (now\<lparr>ordinal := ?o - 3\<rparr>)"
    using lo hi by (simp_all add: sub_days_ok)
  have w3: "date_weekday (?o - 3) < 5"
    if "\<not> date_weekday (?o - 1) < 5" and "\<not> date_weekday (?o - 2) < 5"
    using weekday_three [of "?o - 1"] that by simp
  have l3: "market_day_loop now 3
      = (if date_weekday (?o - 3) < 5 then Inr (?o - 3) else market_day_loop now 4)"
    by (subst market_day_loop.simps) (simp add: s3 weekday_def)
  have l2: "market_day_loop now 2
      = (if date_weekday (?o - 2) < 5 then Inr (?o - 2) else market_day_loop now 3)"
    by (subst market_day_loop.simps) (simp add: s2 weekday_def)
  have l1: "market_day_loop now 1
      = (if date_weekday (?o - 1) < 5 then Inr (?o - 1) else market_day_loop now 2)"
    by (subst market_day_loop.simps) (simp add: s1 weekday_def)
  show ?thesis
  proof (cases "date_weekday (?o - 1) < 5")
    case True
    then show ?thesis by (simp add: l1)
  next
    case n1: False
    show ?thesis
    proof (cases "date_weekday (?o - 2) < 5")
      case True
      then show ?thesis using n1 by (simp add: l1 l2)
    next
      case n2: False
      have "date_weekday (?o - 3) < 5" using n1 n2 by (rule w3)
      then show ?thesis using n1 n2 by (simp add: l1 l2 l3)
    qed
  qed
qed

lemma get_market_day_eq:
  assumes lo: "3 < ordinal now" and hi: "ordinal now \<le> MAXORDINAL"
  shows "get_market_day now =
     Inr (if weekday now < 5 \<and> 9 \<le> hour now \<and> hour now < 16 then ordinal now
          else latest_weekday_at_or_before (ordinal now - 1))"
  using market_day_loop_1 [OF lo hi] by (auto simp: get_market_day_def)

lemma np_where_nth:
  "i < length cond \<Longrightarrow> i < length xs \<Longrightarrow> i < length ys \<Longrightarrow>
   np_where cond xs ys ! i = (if cond ! i then xs ! i else ys ! i)"
  by (simp add: np_where_def)

lemma length_np_where:
  "length (np_where cond xs ys) = min (length cond) (min (length xs) (length ys))"
  by (simp add: np_where_def)

lemma col_and_nth:
  "i < length xs \<Longrightarrow> i < length ys \<Longrightarrow> col_and xs ys ! i = (xs ! i \<and> ys ! i)"
  by (simp add: col_and_def)

lemma length_col_and: "length (col_and xs ys) = min (length xs) (length ys)"
  by (simp add: col_and_def)

lemma generate_report_nth:
  assumes i: "i < length results"
  shows "\<exists>col. generate_report results skipped invalid_count = Some col
    \<and> length col = length results
    \<and> col ! i =
        (if fgt (Z_Score (results ! i)) (Fin 1) \<and> fgt (Risk_Adj_Return (results ! i)) (Fin 0)
         then ''Buy''
         else if flt (Z_Score (results ! i)) (Fin (- 1))
                 \<and> flt (Risk_Adj_Return (results ! i)) (Fin 0)
         then ''Avoid''
         else ''Neutral'')"
proof -
  have ne: "results \<noteq> []" using i by auto
  show ?thesis
    using i ne
    by (simp add: generate_report_def Let_def np_where_nth length_np_where col_and_nth
        length_col_and)
qed

lemma not_both: "\<not> (fgt z (Fin 1) \<and> flt z (Fin (- 1)))"
  by (cases z) (simp_all add: flt_def)

section \<open>The claims\<close>

subsection \<open>The partition of the input tickers\<close>

text \<open>
  C1. One run of \<open>process_market\<close>, whatever the two completion orders and whatever
  the provider answers to each task: the number of input tickers is
  \<open>len(results) + len(skipped) + invalid_count\<close>; the input tickers, counted with
  their multiplicity, are the tickers of the results, the skipped tickers and
  \<open>invalid_count\<close> further ones, so none is lost and none is counted twice; and
  when the input tickers are pairwise distinct no ticker is both in a result and skipped.
\<close>

theorem partition_invariant:
  assumes "process_market sched1 sched2 probe bars exchanges = (results, skipped, invalid_count)"
  shows "int (length (all_tickers exchanges))
           = int (length results) + int (length skipped) + invalid_count
         \<and> 0 \<le> invalid_count
         \<and> (\<exists>invalid. mset (all_tickers exchanges)
                = mset (map Ticker results) + mset skipped + invalid
              \<and> int (size invalid) = invalid_count)
         \<and> (distinct (all_tickers exchanges) \<longrightarrow>
              distinct (map Ticker results) \<and> distinct skipped
              \<and> set (map Ticker results) \<inter> set skipped = {})"
proof -
  let ?all = "all_tickers exchanges"
  let ?valid = "get_valid_tickers sched1 probe ?all"
  have part: "mset (map Ticker results) + mset skipped = mset ?valid"
    and n: "invalid_count = int (length ?all) - int (length ?valid)"
    using process_market_partition [OF assms] by auto
  have le: "mset ?valid \<subseteq># mset ?all"
    by (rule valid_tickers_le)
  have len: "length ?valid = length results + length skipped"
    using arg_cong [OF part, of size] by simp
  have len_le: "length ?valid \<le> length ?all"
    using size_mset_mono [OF le] by simp
  have count: "int (length ?all) = int (length results) + int (length skipped) + invalid_count"
    using n len by simp
  have nonneg: "0 \<le> invalid_count"
    using n len_le by simp
  have "mset ?all = mset ?valid + (mset ?all - mset ?valid)"
    using le by simp
  moreover have "int (size (mset ?all - mset ?valid)) = invalid_count"
    using le n len_le by (simp add: size_Diff_submset)
  ultimately have inv: "mset ?all
        = mset (map Ticker results) + mset skipped + (mset ?all - mset ?valid)
      \<and> int (size (mset ?all - mset ?valid)) = invalid_count"
    by (simp only: part)
  have dis: "distinct (map Ticker results) \<and> distinct skipped
      \<and> set (map Ticker results) \<inter> set skipped = {}" if d: "distinct ?all"
  proof -
    have "distinct ?valid"
      using le d by (rule distinct_submset)
    moreover have "mset (map Ticker results @ skipped) = mset ?valid"
      using part by simp
    ultimately have "distinct (map Ticker results @ skipped)"
      using mset_eq_imp_distinct_iff by blast
    then show ?thesis by auto
  qed
  show ?thesis
    using count nonneg inv dis by blast
qed

text \<open>
  The sample run over the exchange NSE: one result, two skipped tickers, seven invalid.
\<close>

theorem partition_invariant_witness:
  "process_market [] [1] example_probe example_bars [''NSE'']
     = ([example_result], [''TCS.NS'', ''HDFCBANK.NS''], 7)
   \<and> distinct (all_tickers [''NSE''])
   \<and> int (length (all_tickers [''NSE''])) = int 1 + int 2 + 7
   \<and> set (map Ticker [example_result]) \<inter> set [''TCS.NS'', ''HDFCBANK.NS''] = {}"
proof -
  have d: "distinct (all_tickers [''NSE''])"
    unfolding all_tickers_NSE by simp
  from partition_invariant [OF example_run_in_order] d example_run_in_order show ?thesis
    by simp
qed

subsection \<open>Classification\<close>

text \<open>
  C2. The recommendation of a row is a function of its pair
  (\<open>Z-Score\<close>, \<open>Risk-Adj Return\<close>) alone: \<open>Buy\<close> exactly when the score
  is above 1 and the risk-adjusted return above 0, \<open>Avoid\<close> exactly when the score
  is below -1 and the risk-adjusted return below 0, \<open>Neutral\<close> otherwise. The
  comparisons are strict: the pair (1, 1) is \<open>Neutral\<close>.
\<close>

theorem classification:
  assumes "i < length results"
    and "z = Z_Score (results ! i)" and "r = Risk_Adj_Return (results ! i)"
  shows "\<exists>col. generate_report results skipped invalid_count = Some col
    \<and> length col = length results
    \<and> (col ! i = ''Buy'' \<or> col ! i = ''Avoid'' \<or> col ! i = ''Neutral'')
    \<and> (col ! i = ''Buy'' \<longleftrightarrow> fgt z (Fin 1) \<and> fgt r (Fin 0))
    \<and> (col ! i = ''Avoid'' \<longleftrightarrow> flt z (Fin (- 1)) \<and> flt r (Fin 0))
    \<and> (col ! i = ''Neutral'' \<longleftrightarrow>
          \<not> (fgt z (Fin 1) \<and> fgt r (Fin 0)) \<and> \<not> (flt z (Fin (- 1)) \<and> flt r (Fin 0)))
    \<and> (\<forall>a b. z = Fin a \<and> r = Fin b \<longrightarrow>
          (col ! i = ''Buy'' \<longleftrightarrow> 1 < a \<and> 0 < b)
          \<and> (col ! i = ''Avoid'' \<longleftrightarrow> a < - 1 \<and> b < 0))
    \<and> (z = Fin 1 \<and> r = Fin 1 \<longrightarrow> col ! i = ''Neutral'')"
proof -
  obtain col where c: "generate_report results skipped invalid_count = Some col"
    and l: "length col = length results"
    and v: "col ! i =
        (if fgt z (Fin 1) \<and> fgt r (Fin 0) then ''Buy''
         else if flt z (Fin (- 1)) \<and> flt r (Fin 0) then ''Avoid''
         else ''Neutral'')"
    using generate_report_nth [OF assms(1), of skipped invalid_count] assms(2,3) by auto
  have nb: "\<not> (fgt z (Fin 1) \<and> flt z (Fin (- 1)))" by (rule not_both)
  have "(col ! i = ''Buy'' \<or> col ! i = ''Avoid'' \<or> col ! i = ''Neutral'')
    \<and> (col ! i = ''Buy'' \<longleftrightarrow> fgt z (Fin 1) \<and> fgt r (Fin 0))
    \<and> (col ! i = ''Avoid'' \<longleftrightarrow> flt z (Fin (- 1)) \<and> flt r (Fin 0))
    \<and> (col ! i = ''Neutral'' \<longleftrightarrow>
          \<not> (fgt z (Fin 1) \<and> fgt r (Fin 0)) \<and> \<not> (flt z (Fin (- 1)) \<and> flt r (Fin 0)))"
    unfolding v using nb by auto
  moreover have "\<forall>a b. z = Fin a \<and> r = Fin b \<longrightarrow>
          (col ! i = ''Buy'' \<longleftrightarrow> 1 < a \<and> 0 < b)
          \<and> (col ! i = ''Avoid'' \<longleftrightarrow> a < - 1 \<and> b < 0)"
    unfolding v by (auto simp: flt_def)
  moreover have "z = Fin 1 \<and> r = Fin 1 \<longrightarrow> col ! i = ''Neutral''"
    unfolding v by (auto simp: flt_def)
  ultimately show ?thesis
    using c l by blast
qed

text \<open>
  The specification's four scenarios, and a row of NaN: Buy, Avoid, Neutral, Neutral,
  Neutral.
\<close>

theorem classification_witness:
  "generate_report example_rows [] 0
     = Some [''Buy'', ''Avoid'', ''Neutral'', ''Neutral'', ''Neutral'']
   \<and> (3::nat) < length example_rows
   \<and> Z_Score (example_rows ! 3) = Fin 1 \<and> Risk_Adj_Return (example_rows ! 3) = Fin 1
   \<and> [''Buy'', ''Avoid'', ''Neutral'', ''Neutral'', ''Neutral''] ! 3 = ''Neutral''"
proof -
  have g: "generate_report example_rows [] 0
     = Some [''Buy'', ''Avoid'', ''Neutral'', ''Neutral'', ''Neutral'']"
    by (simp add: generate_report_def example_rows_def np_where_def col_and_def flt_def)
  have i: "(3::nat) < length example_rows"
    by (simp add: example_rows_def)
  have z: "Fin 1 = Z_Score (example_rows ! 3)" and r: "Fin 1 = Risk_Adj_Return (example_rows ! 3)"
    by (simp_all add: example_rows_def)
  from classification [OF i z r, of "[]" 0] g
  have "[''Buy'', ''Avoid'', ''Neutral'', ''Neutral'', ''Neutral''] ! 3 = ''Neutral''"
    by auto
  then show ?thesis
    using g i z r by simp
qed

subsection \<open>Insufficient data\<close>

text \<open>
  C3. A fetched series of fewer than \<open>MIN_DATA_POINTS\<close> bars gives no result,
  whatever its prices, and in every run of the pipeline the ticker of such a task is
  among the skipped.
\<close>

theorem insufficient_data:
  assumes "yf t = Inr data" and "length data < MIN_DATA_POINTS"
  shows "process_single_ticker yf t = None
    \<and> (\<forall>sched1 sched2 probe bars exchanges results skipped invalid_count i.
          process_market sched1 sched2 probe bars exchanges = (results, skipped, invalid_count)
          \<and> i < length (get_valid_tickers sched1 probe (all_tickers exchanges))
          \<and> get_valid_tickers sched1 probe (all_tickers exchanges) ! i = t
          \<and> bars i = yf
          \<longrightarrow> t \<in> set skipped)"
proof -
  have none: "process_single_ticker yf t = None"
    using assms by (simp add: process_single_ticker_def fetch_intraday_data_eq)
  show ?thesis
    using none none_is_skipped by blast
qed

text \<open>
  The sample run: TCS.NS has ten bars and is skipped.
\<close>

theorem insufficient_data_witness:
  "example_bars 1 ''TCS.NS'' = Inr (replicate 10 5)
   \<and> length (replicate 10 (5::real)) < MIN_DATA_POINTS
   \<and> process_single_ticker (example_bars 1) ''TCS.NS'' = None
   \<and> process_market [] [1] example_probe example_bars [''NSE'']
       = ([example_result], [''TCS.NS'', ''HDFCBANK.NS''], 7)
   \<and> ''TCS.NS'' \<in> set [''TCS.NS'', ''HDFCBANK.NS'']"
proof -
  have a: "example_bars 1 ''TCS.NS'' = Inr (replicate 10 5)"
    by (simp add: example_bars_def)
  have b: "length (replicate 10 (5::real)) < MIN_DATA_POINTS"
    by (simp add: MIN_DATA_POINTS_def)
  note T = insufficient_data [of "example_bars 1" "''TCS.NS''" "replicate 10 5", OF a b]
  from T have n: "process_single_ticker (example_bars 1) ''TCS.NS'' = None"
    by blast
  from T have "process_market [] [1] example_probe example_bars [''NSE'']
        = ([example_result], [''TCS.NS'', ''HDFCBANK.NS''], 7)
      \<and> 1 < length (get_valid_tickers [] example_probe (all_tickers [''NSE'']))
      \<and> get_valid_tickers [] example_probe (all_tickers [''NSE'']) ! 1 = ''TCS.NS''
      \<and> example_bars 1 = example_bars 1
      \<longrightarrow> ''TCS.NS'' \<in> set [''TCS.NS'', ''HDFCBANK.NS'']"
    by blast
  then have m: "''TCS.NS'' \<in> set [''TCS.NS'', ''HDFCBANK.NS'']"
    using example_run_in_order example_valid_in_order by simp
  show ?thesis
    using a b n m example_run_in_order by simp
qed

subsection \<open>The standardized score\<close>

text \<open>
  C4. For a fetched series of at least \<open>MIN_DATA_POINTS\<close> bars the analysis gives a
  result whose \<open>Z-Score\<close> is \<open>(daily_return_pct - mean) / std\<close> when that
  \<open>std\<close> is not zero and \<open>0\<close> otherwise, the mean and the (population)
  standard deviation being those of the ticker's own per-bar returns, and
  \<open>daily_return_pct\<close> the percent return of the whole session. When no close is zero
  all of these are finite and are the specification's formulas on real numbers.
\<close>

theorem standardized_score_formula:
  assumes "yf t = Inr data" and "MIN_DATA_POINTS \<le> length data"
  shows "\<exists>r. process_single_ticker yf t = Some r
    \<and> Z_Score r =
        (if fne (np_std (returns data)) (Fin 0)
         then fdiv (fsub (Daily_Return r) (np_mean (returns data))) (np_std (returns data))
         else Fin 0)
    \<and> Daily_Return r
         = fmul (fdiv (fsub (Fin (last data)) (Fin (hd data))) (Fin (hd data))) (Fin 100)
    \<and> (0 \<notin> set data \<longrightarrow>
         returns data = map Fin (fractional_returns data)
         \<and> Daily_Return r = Fin (session_return_pct data)
         \<and> Z_Score r =
             Fin (if population_std (fractional_returns data) = 0 then 0
                  else (session_return_pct data - mean_of (fractional_returns data))
                         / population_std (fractional_returns data)))"
proof -
  have p: "process_single_ticker yf t = analyze t data" and ne: "data \<noteq> []"
    using process_single_ticker_enough [of yf t data] assms by auto
  have len: "3 \<le> length data"
    using assms(2) by (simp add: MIN_DATA_POINTS_def)
  show ?thesis
    unfolding p
  proof (intro exI conjI impI)
    show "analyze t data = Some (the (analyze t data))"
      by (simp add: analyze_nonempty [OF ne])
    show "Z_Score (the (analyze t data)) =
        (if fne (np_std (returns data)) (Fin 0)
         then fdiv (fsub (Daily_Return (the (analyze t data))) (np_mean (returns data)))
                (np_std (returns data))
         else Fin 0)"
      by (simp add: analyze_nonempty [OF ne] z_score_def market_std_def market_mean_def
          market_returns_eq)
    show "Daily_Return (the (analyze t data))
         = fmul (fdiv (fsub (Fin (last data)) (Fin (hd data))) (Fin (hd data))) (Fin 100)"
      by (simp add: analyze_nonempty [OF ne] daily_return_pct_def)
  next
    assume nz: "0 \<notin> set data"
    show "returns data = map Fin (fractional_returns data)"
      using nz by (rule returns_nonzero)
    show "Daily_Return (the (analyze t data)) = Fin (session_return_pct data)"
      by (simp add: analyze_finite [OF nz len])
    show "Z_Score (the (analyze t data)) =
             Fin (if population_std (fractional_returns data) = 0 then 0
                  else (session_return_pct data - mean_of (fractional_returns data))
                         / population_std (fractional_returns data))"
      by (simp add: analyze_finite [OF nz len])
  qed
qed

text \<open>
  Sixty bars that open at 1 and stay at 2: the session return is 100 percent.
\<close>

theorem standardized_score_formula_witness:
  "\<exists>r. process_single_ticker (\<lambda>t. Inr (1 # 2 # 2 # replicate 57 2)) ''TCS.NS'' = Some r
     \<and> Daily_Return r = Fin 100
     \<and> Z_Score r =
         Fin (if population_std (fractional_returns (1 # 2 # 2 # replicate 57 2)) = 0 then 0
              else (session_return_pct (1 # 2 # 2 # replicate 57 2)
                      - mean_of (fractional_returns (1 # 2 # 2 # replicate 57 2)))
                   / population_std (fractional_returns (1 # 2 # 2 # replicate 57 2)))"
proof -
  let ?d = "1 # 2 # 2 # replicate 57 (2::real)"
  have a: "(\<lambda>t::ticker. (Inr ?d :: exn + frame)) ''TCS.NS'' = Inr ?d" by simp
  have b: "MIN_DATA_POINTS \<le> length ?d" by (simp add: MIN_DATA_POINTS_def)
  have c: "0 \<notin> set ?d" by simp
  have s: "session_return_pct ?d = 100" by (simp add: session_return_pct_def)
  from standardized_score_formula [of "\<lambda>t. Inr ?d" "''TCS.NS''" ?d, OF a b] c s
  show ?thesis by auto
qed

subsection \<open>The session\<close>

text \<open>
  C5, as the code has it, for the date of the session. For a clock reading after
  0001-01-03 \<open>_get_market_day\<close> returns a date: the date of \<open>now\<close> when
  \<open>now\<close> is a weekday with local hour from 9 to 15; otherwise the latest weekday
  strictly before the date of \<open>now\<close>. The date is a weekday in both cases.
\<close>

theorem session_resolution:
  assumes "3 < ordinal now" and "ordinal now \<le> MAXORDINAL"
  shows "\<exists>d. get_market_day now = Inr d
    \<and> (weekday now < 5 \<and> 9 \<le> hour now \<and> hour now < 16 \<longrightarrow> d = ordinal now)
    \<and> (\<not> (weekday now < 5 \<and> 9 \<le> hour now \<and> hour now < 16) \<longrightarrow>
          d = latest_weekday_at_or_before (ordinal now - 1)
          \<and> d < ordinal now
          \<and> (\<forall>d'. d < d' \<and> d' < ordinal now \<longrightarrow> 5 \<le> date_weekday d'))
    \<and> date_weekday d < 5"
proof -
  define inside where "inside \<longleftrightarrow> weekday now < 5 \<and> 9 \<le> hour now \<and> hour now < 16"
  define d where
    "d = (if inside then ordinal now else latest_weekday_at_or_before (ordinal now - 1))"
  have g: "get_market_day now = Inr d"
    by (simp add: get_market_day_eq [OF assms] d_def inside_def)
  have spec: "latest_weekday_at_or_before (ordinal now - 1) \<le> ordinal now - 1"
    "date_weekday (latest_weekday_at_or_before (ordinal now - 1)) < 5"
    "\<forall>d'. latest_weekday_at_or_before (ordinal now - 1) < d' \<and> d' \<le> ordinal now - 1
          \<longrightarrow> 5 \<le> date_weekday d'"
    using latest_weekday_spec [of "ordinal now - 1"] by blast+
  have own: "inside \<longrightarrow> d = ordinal now"
    by (simp add: d_def)
  have out1: "\<not> inside \<longrightarrow> d = latest_weekday_at_or_before (ordinal now - 1)"
    by (simp add: d_def)
  have out2: "\<not> inside \<longrightarrow> d < ordinal now"
    using spec(1) by (simp add: d_def)
  have out3: "\<not> inside \<longrightarrow> (\<forall>d'. d < d' \<and> d' < ordinal now \<longrightarrow> 5 \<le> date_weekday d')"
    using spec(3) by (simp add: d_def)
  have wd: "date_weekday d < 5"
  proof (cases inside)
    case True
    then show ?thesis by (simp add: d_def inside_def weekday_def)
  next
    case False
    then show ?thesis using spec(2) by (simp add: d_def)
  qed
  show ?thesis
    unfolding inside_def [symmetric]
    using g own out1 out2 out3 wd by (intro exI [of _ d]) simp
qed

text \<open>
  Saturday 2024-01-06 at noon: the date is Friday 2024-01-05.
\<close>

theorem session_resolution_witness:
  "3 < ordinal \<lparr> ordinal = 738891, hour = 12, minute = 0, second = 0, microsecond = 0 \<rparr>
   \<and> ordinal \<lparr> ordinal = 738891, hour = 12, minute = 0, second = 0, microsecond = 0 \<rparr>
        \<le> MAXORDINAL
   \<and> weekday \<lparr> ordinal = 738891, hour = 12, minute = 0, second = 0, microsecond = 0 \<rparr> = 5
   \<and> (\<exists>d. get_market_day
              \<lparr> ordinal = 738891, hour = 12, minute = 0, second = 0, microsecond = 0 \<rparr> = Inr d
          \<and> d = 738890 \<and> date_weekday d < 5)"
proof -
  let ?now = "\<lparr> ordinal = 738891, hour = 12, minute = 0, second = 0, microsecond = 0 \<rparr>"
  have lo: "3 < ordinal ?now" by simp
  have hi: "ordinal ?now \<le> MAXORDINAL" by (simp add: MAXORDINAL_def)
  have w: "weekday ?now = 5" by (simp add: weekday_def date_weekday_def)
  have l: "latest_weekday_at_or_before (ordinal ?now - 1) = 738890"
    by (simp add: date_weekday_def)
  from session_resolution [OF lo hi] obtain d where
    d: "get_market_day ?now = Inr d"
      "\<not> (weekday ?now < 5 \<and> 9 \<le> hour ?now \<and> hour ?now < 16) \<longrightarrow>
          d = latest_weekday_at_or_before (ordinal ?now - 1)"
      "date_weekday d < 5"
    by blast
  have "d = 738890"
    using d(2) w l by simp
  then show ?thesis
    using lo hi w d by auto
qed

text \<open>
  C5 as stated fails on a weekday outside the session hours. On Tuesday 2024-01-02 at
  17:00 the latest weekday at or before \<open>now\<close> is that Tuesday, and the code
  resolves Monday 2024-01-01: the walk starts one day back.
\<close>

theorem session_after_close_counterexample:
  "weekday \<lparr> ordinal = 738887, hour = 17, minute = 0, second = 0, microsecond = 0 \<rparr> = 1
   \<and> latest_weekday_at_or_before
       (ordinal \<lparr> ordinal = 738887, hour = 17, minute = 0, second = 0, microsecond = 0 \<rparr>)
       = 738887
   \<and> get_market_day \<lparr> ordinal = 738887, hour = 17, minute = 0, second = 0, microsecond = 0 \<rparr>
       = Inr 738886
   \<and> (738886::int) \<noteq> 738887"
proof -
  let ?now = "\<lparr> ordinal = 738887, hour = 17, minute = 0, second = 0, microsecond = 0 \<rparr>"
  have lo: "3 < ordinal ?now" by simp
  have hi: "ordinal ?now \<le> MAXORDINAL" by (simp add: MAXORDINAL_def)
  have w: "weekday ?now = 1" by (simp add: weekday_def date_weekday_def)
  have l: "latest_weekday_at_or_before (ordinal ?now) = 738887"
    by (simp add: date_weekday_def)
  have g: "get_market_day ?now = Inr 738886"
    unfolding get_market_day_eq [OF lo hi] by (simp add: date_weekday_def)
  show ?thesis
    using w l g by simp
qed

subsection \<open>Volatility and the risk-adjusted return\<close>

text \<open>
  C6, as the code has it. For a fetched series of at least \<open>MIN_DATA_POINTS\<close> bars
  the risk-adjusted return is \<open>daily_return_pct / volatility\<close> when the volatility
  is not zero and \<open>0\<close> otherwise; and when the close is constant and not zero,
  the volatility and the risk-adjusted return are both \<open>0\<close>.
\<close>

theorem risk_adjusted_return_formula:
  assumes "yf t = Inr data" and "MIN_DATA_POINTS \<le> length data"
  shows "\<exists>r. process_single_ticker yf t = Some r
    \<and> Risk_Adj_Return r =
        (if fne (Volatility r) (Fin 0) then fdiv (Daily_Return r) (Volatility r) else Fin 0)
    \<and> (\<forall>c. c \<noteq> 0 \<and> set data = {c} \<longrightarrow> Volatility r = Fin 0 \<and> Risk_Adj_Return r = Fin 0)"
proof -
  have p: "process_single_ticker yf t = analyze t data" and ne: "data \<noteq> []"
    using process_single_ticker_enough [of yf t data] assms by auto
  have len: "3 \<le> length data"
    using assms(2) by (simp add: MIN_DATA_POINTS_def)
  have const: "Volatility (the (analyze t data)) = Fin 0
      \<and> Risk_Adj_Return (the (analyze t data)) = Fin 0" if "c \<noteq> 0 \<and> set data = {c}" for c
  proof -
    have "data = replicate (length data) c"
      using that by (simp add: constant_set)
    then have "analyze t data = Some \<lparr> Ticker = t, Current_Price = Fin c, Daily_Return = Fin 0,
        Volatility = Fin 0, Risk_Adj_Return = Fin 0, Z_Score = Fin 0 \<rparr>"
      using constant_frame [of c "length data" t] that len by simp
    then show ?thesis by simp
  qed
  show ?thesis
    unfolding p
  proof (intro exI conjI allI impI)
    show "analyze t data = Some (the (analyze t data))"
      by (simp add: analyze_nonempty [OF ne])
    show "Risk_Adj_Return (the (analyze t data)) =
        (if fne (Volatility (the (analyze t data))) (Fin 0)
         then fdiv (Daily_Return (the (analyze t data))) (Volatility (the (analyze t data)))
         else Fin 0)"
      by (simp add: analyze_nonempty [OF ne] risk_adj_return_def)
  next
    fix c assume "c \<noteq> 0 \<and> set data = {c}"
    then show "Volatility (the (analyze t data)) = Fin 0"
      and "Risk_Adj_Return (the (analyze t data)) = Fin 0"
      using const by auto
  qed
qed

text \<open>
  Sixty bars at 5.
\<close>

theorem risk_adjusted_return_formula_witness:
  "\<exists>r. process_single_ticker (\<lambda>t. Inr (replicate 60 5)) ''TCS.NS'' = Some r
     \<and> Volatility r = Fin 0 \<and> Risk_Adj_Return r = Fin 0"
proof -
  let ?d = "replicate 60 (5::real)"
  have a: "(\<lambda>t::ticker. (Inr ?d :: exn + frame)) ''TCS.NS'' = Inr ?d" by simp
  have b: "MIN_DATA_POINTS \<le> length ?d" by (simp add: MIN_DATA_POINTS_def)
  have c: "(5::real) \<noteq> 0 \<and> set ?d = {5}" by simp
  from risk_adjusted_return_formula [of "\<lambda>t. Inr ?d" "''TCS.NS''" ?d, OF a b] c
  show ?thesis by blast
qed

text \<open>
  C6 as stated fails for the constant close \<open>0\<close>: every per-bar return is
  \<open>0/0\<close>, \<open>dropna\<close> leaves none, the standard deviation of no values is NaN,
  and \<open>NaN != 0\<close> holds, so the volatility and the risk-adjusted return are NaN.
\<close>

theorem constant_zero_price_counterexample:
  "MIN_DATA_POINTS \<le> length (replicate 60 (0::real))
   \<and> set (replicate 60 (0::real)) = {0}
   \<and> process_single_ticker (\<lambda>t. Inr (replicate 60 0)) ''TCS.NS''
       = Some \<lparr> Ticker = ''TCS.NS'', Current_Price = Fin 0, Daily_Return = NaN,
                Volatility = NaN, Risk_Adj_Return = NaN, Z_Score = NaN \<rparr>
   \<and> NaN \<noteq> Fin 0"
proof -
  let ?d = "replicate 60 (0::real)"
  have b: "MIN_DATA_POINTS \<le> length ?d" by (simp add: MIN_DATA_POINTS_def)
  have z: "set ?d = {0}" by simp
  have "process_single_ticker (\<lambda>t. Inr ?d) ''TCS.NS'' = analyze ''TCS.NS'' ?d"
    using process_single_ticker_enough [of "\<lambda>t. Inr ?d" "''TCS.NS''" ?d] b by simp
  then show ?thesis
    using b z zero_frame [OF z, of "''TCS.NS''"] by simp
qed

subsection \<open>Fetching\<close>

text \<open>
  C7. \<open>fetch_intraday_data\<close> calls the provider exactly once. On an exception it
  returns the empty frame and raises nothing; the analysis of that ticker then gives no
  result, and in every run of the pipeline the ticker is among the skipped.
\<close>

theorem fetch_failure_degrades:
  "snd (fetch_intraday_data yf t calls) = calls @ [t]
   \<and> (\<forall>data. yf t = Inr data \<longrightarrow> fst (fetch_intraday_data yf t calls) = data)
   \<and> (\<forall>e. yf t = Inl e \<longrightarrow>
         fetch_intraday_data yf t calls = ([], calls @ [t])
         \<and> process_single_ticker yf t = None
         \<and> (\<forall>sched1 sched2 probe bars exchanges results skipped invalid_count i.
               process_market sched1 sched2 probe bars exchanges
                 = (results, skipped, invalid_count)
               \<and> i < length (get_valid_tickers sched1 probe (all_tickers exchanges))
               \<and> get_valid_tickers sched1 probe (all_tickers exchanges) ! i = t
               \<and> bars i = yf
               \<longrightarrow> t \<in> set skipped))"
proof -
  have one: "snd (fetch_intraday_data yf t calls) = calls @ [t]"
    by (simp add: fetch_intraday_data_eq)
  have ok: "fst (fetch_intraday_data yf t calls) = data" if "yf t = Inr data" for data
    using that by (simp add: fetch_intraday_data_eq)
  have err: "fetch_intraday_data yf t calls = ([], calls @ [t])
      \<and> process_single_ticker yf t = None" if "yf t = Inl e" for e
    using that by (simp add: fetch_intraday_data_eq process_single_ticker_def MIN_DATA_POINTS_def)
  show ?thesis
    using one ok err none_is_skipped by blast
qed

text \<open>
  The sample run: the fetch of HDFCBANK.NS fails and the ticker is skipped.
\<close>

theorem fetch_failure_degrades_witness:
  "example_bars 2 ''HDFCBANK.NS'' = Inl NetworkError
   \<and> fetch_intraday_data (example_bars 2) ''HDFCBANK.NS'' [] = ([], [''HDFCBANK.NS''])
   \<and> process_single_ticker (example_bars 2) ''HDFCBANK.NS'' = None
   \<and> process_market [] [1] example_probe example_bars [''NSE'']
       = ([example_result], [''TCS.NS'', ''HDFCBANK.NS''], 7)
   \<and> ''HDFCBANK.NS'' \<in> set [''TCS.NS'', ''HDFCBANK.NS'']"
proof -
  have a: "example_bars 2 ''HDFCBANK.NS'' = Inl NetworkError"
    by (simp add: example_bars_def)
  note T = fetch_failure_degrades [of "example_bars 2" "''HDFCBANK.NS''" "[]"]
  from T a have f: "fetch_intraday_data (example_bars 2) ''HDFCBANK.NS'' [] = ([], [''HDFCBANK.NS''])"
    and n: "process_single_ticker (example_bars 2) ''HDFCBANK.NS'' = None"
    by simp_all
  from T a have "process_market [] [1] example_probe example_bars [''NSE'']
        = ([example_result], [''TCS.NS'', ''HDFCBANK.NS''], 7)
      \<and> 2 < length (get_valid_tickers [] example_probe (all_tickers [''NSE'']))
      \<and> get_valid_tickers [] example_probe (all_tickers [''NSE'']) ! 2 = ''HDFCBANK.NS''
      \<and> example_bars 2 = example_bars 2
      \<longrightarrow> ''HDFCBANK.NS'' \<in> set [''TCS.NS'', ''HDFCBANK.NS'']"
    by blast
  then have m: "''HDFCBANK.NS'' \<in> set [''TCS.NS'', ''HDFCBANK.NS'']"
    using example_run_in_order example_valid_in_order by simp
  show ?thesis
    using a f n m example_run_in_order by simp
qed

subsection \<open>Independence of the completion order\<close>

text \<open>
  C8. Two runs over the same exchanges with the same provider, whose answer to the
  analysis task of a ticker does not depend on the position of the task, give the same
  results and the same skipped tickers as sets (and as multisets) and the same
  \<open>invalid_count\<close>, whatever the completion orders of the two pools in either run.
\<close>

theorem completion_order_independence:
  assumes indep: "\<forall>i j t. bars i t = bars j t"
    and run1: "process_market sched1 sched2 probe bars exchanges = (results, skipped, invalid_count)"
    and run2: "process_market sched1' sched2' probe bars exchanges
                 = (results', skipped', invalid_count')"
  shows "set results = set results' \<and> set skipped = set skipped'
    \<and> invalid_count = invalid_count'
    \<and> mset results = mset results' \<and> mset skipped = mset skipped'"
proof -
  have r: "mset results = mset results'"
    using process_market_msets(1) [OF indep run1] process_market_msets(1) [OF indep run2]
    by simp
  have s: "mset skipped = mset skipped'"
    using process_market_msets(2) [OF indep run1] process_market_msets(2) [OF indep run2]
    by simp
  have n: "invalid_count = invalid_count'"
    using process_market_msets(3) [OF indep run1] process_market_msets(3) [OF indep run2]
    by simp
  have "set results = set results'"
    using r by (rule mset_eq_setD)
  moreover have "set skipped = set skipped'"
    using s by (rule mset_eq_setD)
  ultimately show ?thesis
    using r s n by simp
qed

text \<open>
  The sample run under two pairs of completion orders: the skipped tickers come out in
  different orders.
\<close>

theorem completion_order_independence_witness:
  "process_market [] [1] example_probe example_bars [''NSE'']
     = ([example_result], [''TCS.NS'', ''HDFCBANK.NS''], 7)
   \<and> process_market [2] [] example_probe example_bars [''NSE'']
     = ([example_result], [''HDFCBANK.NS'', ''TCS.NS''], 7)
   \<and> set [''TCS.NS'', ''HDFCBANK.NS''] = set [''HDFCBANK.NS'', ''TCS.NS'']
   \<and> mset [''TCS.NS'', ''HDFCBANK.NS''] = mset [''HDFCBANK.NS'', ''TCS.NS'']"
proof -
  have indep: "\<forall>i j t. example_bars i t = example_bars j t"
    by (simp add: example_bars_def)
  from completion_order_independence [OF indep example_run_in_order example_run_reordered]
  show ?thesis
    using example_run_in_order example_run_reordered by simp
qed

subsection \<open>Termination of the session resolution\<close>

text \<open>
  C9. For a clock reading after 0001-01-03, \<open>_get_market_day\<close> returns a date and
  raises nothing; the date is a weekday at most 3 (so at most 7) days before the date of
  \<open>now\<close>. The loop is a total function: each turn moves the candidate one day back.
\<close>

theorem session_resolution_terminates:
  assumes "3 < ordinal now" and "ordinal now \<le> MAXORDINAL"
  shows "\<exists>d. get_market_day now = Inr d
    \<and> d \<le> ordinal now \<and> ordinal now - d \<le> 3 \<and> ordinal now - d \<le> 7
    \<and> date_weekday d < 5"
proof -
  have spec: "latest_weekday_at_or_before (ordinal now - 1) \<le> ordinal now - 1
   \<and> ordinal now - 1 - 2 \<le> latest_weekday_at_or_before (ordinal now - 1)
   \<and> date_weekday (latest_weekday_at_or_before (ordinal now - 1)) < 5"
    using latest_weekday_spec [of "ordinal now - 1"] by blast
  show ?thesis
    unfolding get_market_day_eq [OF assms] using spec by (auto simp: weekday_def)
qed

text \<open>
  Monday 2024-01-01 at 08:00: the walk goes back three days, to Friday 2023-12-29.
\<close>

theorem session_resolution_terminates_witness:
  "3 < ordinal \<lparr> ordinal = 738886, hour = 8, minute = 0, second = 0, microsecond = 0 \<rparr>
   \<and> ordinal \<lparr> ordinal = 738886, hour = 8, minute = 0, second = 0, microsecond = 0 \<rparr>
        \<le> MAXORDINAL
   \<and> (\<exists>d. get_market_day
              \<lparr> ordinal = 738886, hour = 8, minute = 0, second = 0, microsecond = 0 \<rparr> = Inr d
          \<and> d \<le> 738886 \<and> 738886 - d \<le> 3 \<and> date_weekday d < 5)
   \<and> get_market_day \<lparr> ordinal = 738886, hour = 8, minute = 0, second = 0, microsecond = 0 \<rparr>
        = Inr 738883"
proof -
  let ?now = "\<lparr> ordinal = 738886, hour = 8, minute = 0, second = 0, microsecond = 0 \<rparr>"
  have lo: "3 < ordinal ?now" by simp
  have hi: "ordinal ?now \<le> MAXORDINAL" by (simp add: MAXORDINAL_def)
  from session_resolution_terminates [OF lo hi] obtain d where
    d: "get_market_day ?now = Inr d" "d \<le> ordinal ?now" "ordinal ?now - d \<le> 3"
      "date_weekday d < 5"
    by blast
  have g: "get_market_day ?now = Inr 738883"
    unfolding get_market_day_eq [OF lo hi] by (simp add: date_weekday_def)
  show ?thesis
    using lo hi d g by auto
qed

subsection \<open>The two standard deviations\<close>



end
